theory Spec2Isabelle
  imports Complex_Main
begin

section \<open>Amplitudes\<close>

text \<open>
  Every gate the scripts emit (X, H, Z and their controlled forms) has real matrix
  entries in the ring generated by \<open>1 / sqrt 2\<close>, so every amplitude that can arise
  from the all-zero start state is a number \<open>(m + n * sqrt 2) / 2 ^ k\<close> with integers
  \<open>m\<close>, \<open>n\<close>.  \<open>Amp m n k\<close> is that number, held exactly; \<open>amp_val\<close> reads it as
  a real.  A number has several representations (\<open>Amp 2 0 1\<close> and \<open>Amp 1 0 0\<close> are
  both one), so amplitudes are compared through \<open>amp_val\<close>.
\<close>

datatype amp = Amp int int nat

definition amp_val :: "amp \<Rightarrow> real" where
  "amp_val x = (case x of Amp m n k \<Rightarrow> (of_int m + of_int n * sqrt 2) / 2 ^ k)"

fun amp_add :: "amp \<Rightarrow> amp \<Rightarrow> amp" where
  "amp_add (Amp m n k) (Amp m' n' k') =
     (if k \<le> k' then Amp (m * 2 ^ (k' - k) + m') (n * 2 ^ (k' - k) + n') k'
      else Amp (m + m' * 2 ^ (k - k')) (n + n' * 2 ^ (k - k')) k)"

fun amp_neg :: "amp \<Rightarrow> amp" where
  "amp_neg (Amp m n k) = Amp (- m) (- n) k"

fun amp_mul :: "amp \<Rightarrow> amp \<Rightarrow> amp" where
  "amp_mul (Amp m n k) (Amp m' n' k') =
     Amp (m * m' + 2 * n * n') (m * n' + n * m') (k + k')"

definition amp_sum :: "amp list \<Rightarrow> amp" where
  "amp_sum xs = foldr amp_add xs (Amp 0 0 0)"

text \<open>The Hadamard matrix entry \<open>1 / sqrt 2 = sqrt 2 / 2\<close>.\<close>

definition rsqrt2 :: amp where
  "rsqrt2 = Amp 0 1 1"

section \<open>Circuits of the simulation library\<close>

text \<open>
  The scripts build a \<open>cirq.Circuit\<close> by appending operations.  A qubit
  \<open>cirq.LineQubit(i)\<close> is its index \<open>i\<close>.  An operation is a one-qubit gate kind with
  its control qubits and its target, or a measurement of some qubits under a key:
  \<open>cirq.X(q)\<close> is \<open>Op GX [] q\<close>, \<open>cirq.X(t).controlled_by(a, b)\<close> is
  \<open>Op GX [a, b] t\<close>, \<open>cirq.CNOT(c, t)\<close> is \<open>Op GX [c] t\<close>, \<open>cirq.TOFFOLI(a, b, t)\<close> is
  \<open>Op GX [a, b] t\<close> and \<open>cirq.CZ(a, b)\<close> is \<open>Op GZ [a] b\<close>.  A circuit is the list of
  its operations in the order the script appended them (the library packs them into
  moments, which keeps the order of operations that share a qubit and so the operator
  the circuit stands for).
\<close>

type_synonym qubit = nat

datatype gate_kind = GX | GH | GZ

datatype operation = Op gate_kind "qubit list" qubit | Measure "qubit list" string

type_synonym circuit = "operation list"

definition LineQubit_range :: "nat \<Rightarrow> qubit list" where
  "LineQubit_range n = [0..<n]"

definition cirq_X :: "qubit \<Rightarrow> operation" where
  "cirq_X q = Op GX [] q"

definition cirq_H :: "qubit \<Rightarrow> operation" where
  "cirq_H q = Op GH [] q"

fun controlled_by :: "operation \<Rightarrow> qubit list \<Rightarrow> operation" where
  "controlled_by (Op g cs t) cs' = Op g (cs' @ cs) t"
| "controlled_by (Measure qs key) cs' = Measure qs key"

definition cirq_CNOT :: "qubit \<Rightarrow> qubit \<Rightarrow> operation" where
  "cirq_CNOT c t = Op GX [c] t"

definition cirq_TOFFOLI :: "qubit \<Rightarrow> qubit \<Rightarrow> qubit \<Rightarrow> operation" where
  "cirq_TOFFOLI a b t = Op GX [a, b] t"

definition cirq_CZ :: "qubit \<Rightarrow> qubit \<Rightarrow> operation" where
  "cirq_CZ a b = Op GZ [a] b"

definition on_each :: "(qubit \<Rightarrow> operation) \<Rightarrow> qubit list \<Rightarrow> circuit" where
  "on_each g qs = map g qs"

definition cirq_measure :: "qubit list \<Rightarrow> string \<Rightarrow> operation" where
  "cirq_measure qs key = Measure qs key"

fun op_qubits :: "operation \<Rightarrow> qubit list" where
  "op_qubits (Op g cs t) = cs @ [t]"
| "op_qubits (Measure qs key) = qs"

section \<open>State vectors\<close>

text \<open>
  A basis state (ket) of an \<open>n\<close>-qubit register is the list of its \<open>n\<close> bits, qubit 0
  first.  A state vector is a formal sum of kets with amplitudes, a list of terms; the
  amplitude of a ket is the sum of the coefficients of its terms (\<open>amp_of\<close>).  X and Z
  gates permute or sign the terms; a Hadamard splits each term in two and combines the
  terms of equal kets (\<open>collect\<close>).  A control list restricts a gate to the kets whose
  control bits are all 1.  A measurement leaves the state as it is: the claims speak of
  the state before measurement, whose squared amplitudes are the outcome probabilities.
\<close>

type_synonym ket = "bool list"

type_synonym state = "(ket \<times> amp) list"

definition controls_on :: "qubit list \<Rightarrow> ket \<Rightarrow> bool" where
  "controls_on cs b = list_all (\<lambda>c. b ! c) cs"

definition amp_of :: "state \<Rightarrow> ket \<Rightarrow> amp" where
  "amp_of \<psi> b = amp_sum (map snd (filter (\<lambda>t. fst t = b) \<psi>))"

definition collect :: "state \<Rightarrow> state" where
  "collect \<psi> = map (\<lambda>b. (b, amp_of \<psi> b)) (remdups (map fst \<psi>))"

fun apply_op :: "operation \<Rightarrow> state \<Rightarrow> state" where
  "apply_op (Op GX cs t) \<psi> =
     map (\<lambda>(b, a). (if controls_on cs b then b[t := \<not> b ! t] else b, a)) \<psi>"
| "apply_op (Op GZ cs t) \<psi> =
     map (\<lambda>(b, a). (b, if controls_on cs b \<and> b ! t then amp_neg a else a)) \<psi>"
| "apply_op (Op GH cs t) \<psi> =
     collect (concat (map (\<lambda>(b, a).
        if controls_on cs b
        then [(b[t := False], amp_mul rsqrt2 a),
              (b[t := True], if b ! t then amp_neg (amp_mul rsqrt2 a) else amp_mul rsqrt2 a)]
        else [(b, a)]) \<psi>))"
| "apply_op (Measure qs key) \<psi> = \<psi>"

definition run :: "circuit \<Rightarrow> state \<Rightarrow> state" where
  "run c \<psi> = foldl (\<lambda>\<phi> g. apply_op g \<phi>) \<psi> c"

text \<open>\<open>simulate c n\<close>: the circuit run on \<open>n\<close> qubits from the all-zero ket.\<close>

definition simulate :: "circuit \<Rightarrow> nat \<Rightarrow> state" where
  "simulate c n = run c [(replicate n False, Amp 1 0 0)]"

text \<open>
  The probability that a measurement of the state yields a ket satisfying \<open>P\<close>: the
  sum of the squared amplitudes of those kets (the amplitudes are real).
\<close>

definition probability :: "state \<Rightarrow> (ket \<Rightarrow> bool) \<Rightarrow> amp" where
  "probability \<psi> P =
     amp_sum (map (\<lambda>b. amp_mul (amp_of \<psi> b) (amp_of \<psi> b))
                  (filter P (remdups (map fst \<psi>))))"

text \<open>The bits of a ket as the 0/1 tuple the scripts write patterns in.\<close>

definition bits :: "ket \<Rightarrow> nat list" where
  "bits b = map (\<lambda>x. if x then 1 else 0) b"

section \<open>Python errors\<close>

text \<open>
  Unpacking a sequence into a fixed number of names raises \<open>ValueError\<close> when the
  lengths differ; a builder that raises returns \<open>Inl\<close>.  A failed import raises
  \<open>ImportError\<close>; \<open>OtherError\<close> stands for any other exception of a library call.
\<close>

datatype error = ValueError | ImportError | OtherError string

section \<open>grover.py\<close>

definition two_public_patterns :: "nat list list" where
  "two_public_patterns =
     [[1, 1, 0, 0], [1, 0, 1, 0], [1, 0, 0, 1], [0, 1, 1, 0], [0, 1, 0, 1], [0, 0, 1, 1]]"

text \<open>
  The loop \<^verbatim>\<open>for i, bit_val in enumerate(pattern): if bit_val == 0:
  circuit.append(cirq.X(qubits[i]))\<close>, which all the pattern oracles share: the
  operations it appends.
\<close>

definition x_on_zero_cells :: "qubit list \<Rightarrow> nat list \<Rightarrow> circuit" where
  "x_on_zero_cells qubits pattern =
     map (\<lambda>(i, bit_val). cirq_X (qubits ! i))
         (filter (\<lambda>(i, bit_val). bit_val = 0) (enumerate 0 pattern))"

text \<open>
  The inner function \<open>flip_val_if_pattern\<close> of \<open>oracle_two_public_rooms\<close>; the names
  it closes over (\<open>circuit\<close>, \<open>qubits\<close>, \<open>q0 .. q3\<close>, \<open>val\<close>) are parameters.
\<close>

definition flip_val_if_pattern ::
    "circuit \<Rightarrow> qubit list \<Rightarrow> qubit list \<Rightarrow> qubit \<Rightarrow> nat list \<Rightarrow> circuit" where
  "flip_val_if_pattern circuit qubits q0123 val pattern =
     circuit @ x_on_zero_cells qubits pattern
             @ [controlled_by (cirq_X val) q0123]
             @ x_on_zero_cells qubits pattern"

definition oracle_two_public_rooms :: "circuit \<Rightarrow> qubit list \<Rightarrow> error + circuit" where
  "oracle_two_public_rooms circuit qubits =
     (if length qubits \<noteq> 6 then Inl ValueError
      else
        let q0 = qubits ! 0; q1 = qubits ! 1; q2 = qubits ! 2; q3 = qubits ! 3;
            val = qubits ! 4
        in Inr (foldl (\<lambda>c pat. flip_val_if_pattern c qubits [q0, q1, q2, q3] val pat)
                      circuit two_public_patterns))"

text \<open>
  The five appends of the diffusion step of \<open>build_grover_circuit\<close>
  (\<open>qubits[:4]\<close> is \<open>take 4 qubits\<close>, \<open>qubits[:3]\<close> is \<open>take 3 qubits\<close>).
\<close>

definition diffusion_grover :: "qubit list \<Rightarrow> circuit" where
  "diffusion_grover qubits =
     on_each cirq_H (take 4 qubits)
     @ on_each cirq_X (take 4 qubits)
     @ [controlled_by (cirq_H (qubits ! 3)) (take 3 qubits)]
     @ on_each cirq_X (take 4 qubits)
     @ on_each cirq_H (take 4 qubits)"

text \<open>One pass of the loop body of \<open>build_grover_circuit\<close>: oracle, then diffusion.\<close>

definition grover_iteration :: "qubit list \<Rightarrow> circuit \<Rightarrow> error + circuit" where
  "grover_iteration qubits circuit =
     (case oracle_two_public_rooms circuit qubits of
        Inl e \<Rightarrow> Inl e
      | Inr c \<Rightarrow> Inr (c @ diffusion_grover qubits))"

fun grover_loop :: "nat \<Rightarrow> qubit list \<Rightarrow> circuit \<Rightarrow> error + circuit" where
  "grover_loop 0 qubits circuit = Inr circuit"
| "grover_loop (Suc n) qubits circuit =
     (case grover_iteration qubits circuit of
        Inl e \<Rightarrow> Inl e
      | Inr c \<Rightarrow> grover_loop n qubits c)"

text \<open>\<open>range(num_iterations)\<close> is empty for a negative count: the loop runs
  \<open>nat num_iterations\<close> times.\<close>

definition build_grover_circuit :: "int \<Rightarrow> error + circuit" where
  "build_grover_circuit num_iterations =
     (let qubits = LineQubit_range 6;
          circuit = [] @ on_each cirq_H (take 4 qubits)
      in case grover_loop (nat num_iterations) qubits circuit of
           Inl e \<Rightarrow> Inl e
         | Inr c \<Rightarrow> Inr (c @ [cirq_measure (take 4 qubits) ''result'']))"

section \<open>quantum_architect_v2.py\<close>

definition two_of_four_patterns :: "nat list list" where
  "two_of_four_patterns =
     [[1, 1, 0, 0], [1, 0, 1, 0], [1, 0, 0, 1], [0, 1, 1, 0], [0, 1, 0, 1], [0, 0, 1, 1]]"

text \<open>
  The body of the two pattern loops of \<open>oracle_count_nonoverlapping_adjacency\<close> (steps
  1A to 1C, and again in the uncomputation): X on the cells that must be 0, the
  4-controlled toggle of \<open>a_count\<close>, the same X gates again.
\<close>

definition toggle_count_if_pattern ::
    "qubit list \<Rightarrow> qubit list \<Rightarrow> qubit \<Rightarrow> circuit \<Rightarrow> nat list \<Rightarrow> circuit" where
  "toggle_count_if_pattern qubits q0123 a_count circuit pattern =
     circuit @ x_on_zero_cells qubits pattern
             @ [controlled_by (cirq_X a_count) q0123]
             @ x_on_zero_cells qubits pattern"

text \<open>
  \<open>qubits[:5]\<close> is \<open>take 5 qubits\<close> and \<open>qubits[5:9]\<close> is \<open>take 4 (drop 5 qubits)\<close>; each
  unpacking raises \<open>ValueError\<close> when the slice is shorter than the names it binds.
\<close>

definition oracle_count_nonoverlapping_adjacency ::
    "circuit \<Rightarrow> qubit list \<Rightarrow> error + circuit" where
  "oracle_count_nonoverlapping_adjacency circuit qubits =
     (if length (take 5 qubits) \<noteq> 5 then Inl ValueError
      else if length (take 4 (drop 5 qubits)) \<noteq> 4 then Inl ValueError
      else
        let q0 = qubits ! 0; q1 = qubits ! 1; q2 = qubits ! 2; q3 = qubits ! 3;
            val = qubits ! 4;
            a_count = qubits ! 5; a_adj0 = qubits ! 6; a_adj1 = qubits ! 7;
            a_xor = qubits ! 8;
            c1 = foldl (toggle_count_if_pattern qubits [q0, q1, q2, q3] a_count)
                       circuit two_of_four_patterns;
            c2 = c1 @ [controlled_by (cirq_X a_adj0) [q0, q1]];
            c3 = c2 @ [controlled_by (cirq_X a_adj1) [q2, q3]];
            c4 = c3 @ [cirq_CNOT a_adj0 a_xor] @ [cirq_CNOT a_adj1 a_xor];
            c5 = c4 @ [controlled_by (cirq_X val) [a_count, a_xor]];
            c6 = c5 @ [cirq_CNOT a_adj1 a_xor] @ [cirq_CNOT a_adj0 a_xor];
            c7 = c6 @ [controlled_by (cirq_X a_adj1) [q2, q3]]
                    @ [controlled_by (cirq_X a_adj0) [q0, q1]]
        in Inr (foldl (toggle_count_if_pattern qubits [q0, q1, q2, q3] a_count)
                      c7 (rev two_of_four_patterns)))"

text \<open>The script's \<open>valid_states = ['1100', '0011']\<close>.\<close>

definition valid_states_v2 :: "nat list list" where
  "valid_states_v2 = [[1, 1, 0, 0], [0, 0, 1, 1]]"

text \<open>The five appends of the diffusion step of \<open>build_grover_circuit\<close>.\<close>

definition diffusion_v2 :: "qubit \<Rightarrow> qubit \<Rightarrow> qubit \<Rightarrow> qubit \<Rightarrow> circuit" where
  "diffusion_v2 q0 q1 q2 q3 =
     on_each cirq_H [q0, q1, q2, q3]
     @ on_each cirq_X [q0, q1, q2, q3]
     @ [controlled_by (cirq_H q3) [q0, q1, q2]]
     @ on_each cirq_X [q0, q1, q2, q3]
     @ on_each cirq_H [q0, q1, q2, q3]"

definition grover_iteration_v2 :: "qubit list \<Rightarrow> circuit \<Rightarrow> error + circuit" where
  "grover_iteration_v2 qubits circuit =
     (let q0 = qubits ! 0; q1 = qubits ! 1; q2 = qubits ! 2; q3 = qubits ! 3
      in case oracle_count_nonoverlapping_adjacency circuit qubits of
           Inl e \<Rightarrow> Inl e
         | Inr c \<Rightarrow> Inr (c @ diffusion_v2 q0 q1 q2 q3))"

fun grover_loop_v2 :: "nat \<Rightarrow> qubit list \<Rightarrow> circuit \<Rightarrow> error + circuit" where
  "grover_loop_v2 0 qubits circuit = Inr circuit"
| "grover_loop_v2 (Suc n) qubits circuit =
     (case grover_iteration_v2 qubits circuit of
        Inl e \<Rightarrow> Inl e
      | Inr c \<Rightarrow> grover_loop_v2 n qubits c)"

definition build_grover_circuit_v2 :: "int \<Rightarrow> error + circuit" where
  "build_grover_circuit_v2 num_iterations =
     (let qubits = LineQubit_range 9;
          q0 = qubits ! 0; q1 = qubits ! 1; q2 = qubits ! 2; q3 = qubits ! 3;
          circuit = [] @ on_each cirq_H [q0, q1, q2, q3]
      in case grover_loop_v2 (nat num_iterations) qubits circuit of
           Inl e \<Rightarrow> Inl e
         | Inr c \<Rightarrow> Inr (c @ [cirq_measure [q0, q1, q2, q3] ''result'']))"

section \<open>quantum_architect/quantum_architect_muli_rule.py\<close>

text \<open>The second copy of the oracle, with its own pattern table.\<close>

definition two_of_four_patterns_muli_rule :: "nat list list" where
  "two_of_four_patterns_muli_rule =
     [[1, 1, 0, 0], [1, 0, 1, 0], [1, 0, 0, 1], [0, 1, 1, 0], [0, 1, 0, 1], [0, 0, 1, 1]]"

definition oracle_count_nonoverlapping_adjacency_muli_rule ::
    "circuit \<Rightarrow> qubit list \<Rightarrow> error + circuit" where
  "oracle_count_nonoverlapping_adjacency_muli_rule circuit qubits =
     (if length (take 5 qubits) \<noteq> 5 then Inl ValueError
      else if length (take 4 (drop 5 qubits)) \<noteq> 4 then Inl ValueError
      else
        let q0 = qubits ! 0; q1 = qubits ! 1; q2 = qubits ! 2; q3 = qubits ! 3;
            val = qubits ! 4;
            a_count = qubits ! 5; a_adj0 = qubits ! 6; a_adj1 = qubits ! 7;
            a_xor = qubits ! 8;
            c1 = foldl (toggle_count_if_pattern qubits [q0, q1, q2, q3] a_count)
                       circuit two_of_four_patterns_muli_rule;
            c2 = c1 @ [controlled_by (cirq_X a_adj0) [q0, q1]];
            c3 = c2 @ [controlled_by (cirq_X a_adj1) [q2, q3]];
            c4 = c3 @ [cirq_CNOT a_adj0 a_xor] @ [cirq_CNOT a_adj1 a_xor];
            c5 = c4 @ [controlled_by (cirq_X val) [a_count, a_xor]];
            c6 = c5 @ [cirq_CNOT a_adj1 a_xor] @ [cirq_CNOT a_adj0 a_xor];
            c7 = c6 @ [controlled_by (cirq_X a_adj1) [q2, q3]]
                    @ [controlled_by (cirq_X a_adj0) [q0, q1]]
        in Inr (foldl (toggle_count_if_pattern qubits [q0, q1, q2, q3] a_count)
                      c7 (rev two_of_four_patterns_muli_rule)))"

section \<open>quantum_architect.py\<close>

definition oracle_for_2_adj_public :: "circuit \<Rightarrow> qubit list \<Rightarrow> error + circuit" where
  "oracle_for_2_adj_public circuit qubits =
     (if length qubits \<noteq> 4 then Inl ValueError
      else
        let q0 = qubits ! 0; q1 = qubits ! 1; q2 = qubits ! 2; val = qubits ! 3
        in Inr (circuit
                @ [cirq_X q2] @ [cirq_TOFFOLI q0 q1 val] @ [cirq_X q2]
                @ [cirq_X q0] @ [cirq_TOFFOLI q1 q2 val] @ [cirq_X q0]
                @ [cirq_CZ val q0]
                @ [cirq_X q0] @ [cirq_TOFFOLI q1 q2 val] @ [cirq_X q0]
                @ [cirq_X q2] @ [cirq_TOFFOLI q0 q1 val] @ [cirq_X q2]))"

section \<open>The diffusion operator of the specification\<close>

text \<open>
  The five steps as the specification words them, for comparison with the block the
  scripts append: Hadamard on every data cell, X on every data cell, a phase flip (Z) of
  the last cell controlled by all the others, X on every cell again, Hadamard on every
  cell again.
\<close>

definition diffusion_spec :: "qubit list \<Rightarrow> circuit" where
  "diffusion_spec data =
     on_each cirq_H data
     @ on_each cirq_X data
     @ [Op GZ (butlast data) (last data)]
     @ on_each cirq_X data
     @ on_each cirq_H data"

text \<open>
  \<open>data_kets n rest\<close>: the \<open>2 ^ n\<close> kets of an \<open>n\<close>-qubit data register followed by
  the fixed bits \<open>rest\<close>.  Reflection about the mean on the kets \<open>ks\<close> of a data
  register: every amplitude \<open>a\<close> becomes \<open>2 * mean - a\<close>, where \<open>mean\<close> is the average
  amplitude over the \<open>2 ^ n\<close> kets (\<open>Amp 1 0 n\<close> is \<open>1 / 2 ^ n\<close>).
\<close>

definition data_kets :: "nat \<Rightarrow> ket \<Rightarrow> ket list" where
  "data_kets n rest = map (\<lambda>x. x @ rest) (List.n_lists n [False, True])"

definition reflect_about_mean :: "nat \<Rightarrow> ket list \<Rightarrow> state \<Rightarrow> state" where
  "reflect_about_mean n ks \<psi> =
     (let mean = amp_mul (Amp 1 0 n) (amp_sum (map (amp_of \<psi>) ks))
      in map (\<lambda>b. (b, amp_add (amp_mul (Amp 2 0 0) mean) (amp_neg (amp_of \<psi> b)))) ks)"

section \<open>part_2/entangled_turtles/drawing_utils.py\<close>









section \<open>grover_simple.py and truss_population.py\<close>



section \<open>Measurement probabilities of a built circuit\<close>

text \<open>
  The probability that measuring the first four qubits of the circuit's final state on
  \<open>n\<close> qubits gives one of the patterns \<open>valid\<close>; \<open>None\<close> when construction raised.
\<close>

definition measured_probability :: "error + circuit \<Rightarrow> nat \<Rightarrow> nat list list \<Rightarrow> amp option" where
  "measured_probability r n valid =
     (case r of
        Inl e \<Rightarrow> None
      | Inr c \<Rightarrow> Some (probability (simulate c n) (\<lambda>b. bits (take 4 b) \<in> set valid)))"

text \<open>
  The result of running a built oracle on one ket with amplitude one; \<open>None\<close> when
  construction raised.
\<close>

definition run_on_ket :: "error + circuit \<Rightarrow> ket \<Rightarrow> state option" where
  "run_on_ket r b = (case r of Inl e \<Rightarrow> None | Inr c \<Rightarrow> Some (run c [(b, Amp 1 0 0)]))"

section \<open>Auxiliary notions for the claims\<close>

text \<open>
  The operations one loop pass appends to the circuit it is given, read off the pass on
  the empty circuit, for the register each script allocates.
\<close>

definition grover_iteration_ops :: circuit where
  "grover_iteration_ops =
     (case grover_iteration (LineQubit_range 6) [] of Inl e \<Rightarrow> [] | Inr d \<Rightarrow> d)"


text \<open>
  \<open>qubit_is q v \<psi>\<close>: in every term of the state, qubit \<open>q\<close> exists and has the value
  \<open>v\<close>.  \<open>avoids q c\<close>: no operation of the circuit has \<open>q\<close> among its controls, as its
  target or among its measured qubits.
\<close>

definition qubit_is :: "qubit \<Rightarrow> bool \<Rightarrow> state \<Rightarrow> bool" where
  "qubit_is q v \<psi> = list_all (\<lambda>t. q < length (fst t) \<and> fst t ! q = v) \<psi>"

definition avoids :: "qubit \<Rightarrow> circuit \<Rightarrow> bool" where
  "avoids q c = list_all (\<lambda>g. q \<notin> set (op_qubits g)) c"

section \<open>The amplitude representation is exact\<close>

lemma amp_val_add: "amp_val (amp_add x y) = amp_val x + amp_val y"
proof (cases x; cases y)
  fix m n k m' n' k'
  assume x: "x = Amp m n k" and y: "y = Amp m' n' k'"
  show ?thesis
  proof (cases "k \<le> k'")
    case True
    then have "(2::real) ^ k' = 2 ^ (k' - k) * 2 ^ k"
      by (simp flip: power_add)
    then show ?thesis using True x y
      by (simp add: amp_val_def field_simps)
  next
    case False
    then have "(2::real) ^ k = 2 ^ (k - k') * 2 ^ k'"
      by (simp flip: power_add)
    then show ?thesis using False x y
      by (simp add: amp_val_def field_simps)
  qed
qed

lemma amp_val_neg: "amp_val (amp_neg x) = - amp_val x"
  by (cases x) (simp add: amp_val_def field_simps)

lemma amp_val_mul: "amp_val (amp_mul x y) = amp_val x * amp_val y"
proof (cases x; cases y)
  fix m n k m' n' k'
  assume x: "x = Amp m n k" and y: "y = Amp m' n' k'"
  have s: "sqrt 2 * sqrt 2 = (2::real)" by simp
  have "(of_int m + of_int n * sqrt 2) * (of_int m' + of_int n' * sqrt 2)
      = (of_int (m * m' + 2 * n * n') + of_int (m * n' + n * m') * sqrt 2 :: real)"
    using s by (simp add: algebra_simps)
  then show ?thesis using x y
    by (simp add: amp_val_def power_add)
qed

lemma amp_val_sum: "amp_val (amp_sum xs) = sum_list (map amp_val xs)"
proof (induction xs)
  case Nil
  show ?case by (simp add: amp_sum_def amp_val_def)
next
  case (Cons a xs)
  then show ?case by (simp add: amp_sum_def amp_val_add)
qed

lemma amp_val_rsqrt2: "amp_val rsqrt2 = 1 / sqrt 2"
  by (simp add: rsqrt2_def amp_val_def real_div_sqrt)

text \<open>Comparing two amplitudes by their integer parts, when that decides it.\<close>

lemma amp_val_less:
  assumes "m * 2 ^ k' < m' * 2 ^ k" and "n * 2 ^ k' \<le> n' * 2 ^ k"
  shows "amp_val (Amp m n k) < amp_val (Amp m' n' k')"
proof -
  have a: "real_of_int m * 2 ^ k' < real_of_int m' * 2 ^ k"
    using assms(1) of_int_less_iff [where ?'a = real, of "m * 2 ^ k'" "m' * 2 ^ k"] by simp
  have "real_of_int n * 2 ^ k' \<le> real_of_int n' * 2 ^ k"
    using assms(2) of_int_le_iff [where ?'a = real, of "n * 2 ^ k'" "n' * 2 ^ k"] by simp
  then have b: "real_of_int n * 2 ^ k' * sqrt 2 \<le> real_of_int n' * 2 ^ k * sqrt 2"
    by (rule mult_right_mono) simp
  have "real_of_int m * 2 ^ k' + real_of_int n * 2 ^ k' * sqrt 2
      < real_of_int m' * 2 ^ k + real_of_int n' * 2 ^ k * sqrt 2"
    by (rule add_less_le_mono [OF a b])
  then have "(real_of_int m + real_of_int n * sqrt 2) * 2 ^ k'
      < (real_of_int m' + real_of_int n' * sqrt 2) * 2 ^ k"
    by (simp add: algebra_simps)
  then show ?thesis
    by (simp add: amp_val_def field_simps)
qed

text \<open>
  Combining the terms of equal kets does not change any amplitude, and two Hadamards
  in a row give back the basis state they started from.
\<close>

lemma filter_eq_distinct:
  "distinct ks \<Longrightarrow> filter (\<lambda>k. k = b) ks = (if b \<in> set ks then [b] else [])"
  by (induction ks) auto

lemma amp_of_collect: "amp_val (amp_of (collect \<psi>) b) = amp_val (amp_of \<psi> b)"
proof -
  have "map snd (filter (\<lambda>t. fst t = b) (map (\<lambda>k. (k, amp_of \<psi> k)) (remdups (map fst \<psi>))))
      = map (amp_of \<psi>) (filter (\<lambda>k. k = b) (remdups (map fst \<psi>)))"
    by (simp add: filter_map comp_def)
  also have "\<dots> = (if b \<in> fst ` set \<psi> then [amp_of \<psi> b] else [])"
    by (simp add: filter_eq_distinct)
  finally have c: "amp_of (collect \<psi>) b
      = amp_sum (if b \<in> fst ` set \<psi> then [amp_of \<psi> b] else [])"
    by (simp add: amp_of_def collect_def)
  show ?thesis
  proof (cases "b \<in> fst ` set \<psi>")
    case True
    with c show ?thesis by (simp add: amp_val_sum)
  next
    case False
    then have "filter (\<lambda>t. fst t = b) \<psi> = []"
      by (auto simp: filter_empty_conv)
    with c False show ?thesis by (simp add: amp_of_def)
  qed
qed

lemma hadamard_twice:
  "map (\<lambda>t. (fst t, amp_val (snd t))) (run [cirq_H 0, cirq_H 0] [([False], Amp 1 0 0)])
     = [([False], 1), ([True], 0)]"
proof -
  have "run [cirq_H 0, cirq_H 0] [([False], Amp 1 0 0)]
      = [([False], Amp 4 0 2), ([True], Amp 0 0 2)]"
    by code_simp
  then show ?thesis by (simp add: amp_val_def)
qed

section \<open>The oracles on basis states\<close>

text \<open>
  C1.  The gate sequence of \<open>oracle_count_nonoverlapping_adjacency\<close> (both copies), run
  on any of the 16 basis inputs of the four data qubits with the four ancillas at zero,
  returns a single ket with amplitude one: the data qubits unchanged, the val qubit
  flipped exactly when the data is 1100 or 0011, and every ancilla back at zero.  (The
  val qubit may start at either value \<open>v\<close>; the claim is the case \<open>v = False\<close>.)
\<close>

theorem oracle_count_nonoverlapping_adjacency_marks:
  "run_on_ket (oracle_count_nonoverlapping_adjacency [] (LineQubit_range 9))
              [q0, q1, q2, q3, v, False, False, False, False]
   = Some [([q0, q1, q2, q3,
             v \<noteq> ([q0, q1, q2, q3] = [True, True, False, False]
                   \<or> [q0, q1, q2, q3] = [False, False, True, True]),
             False, False, False, False], Amp 1 0 0)]
   \<and> run_on_ket (oracle_count_nonoverlapping_adjacency_muli_rule [] (LineQubit_range 9))
              [q0, q1, q2, q3, v, False, False, False, False]
   = Some [([q0, q1, q2, q3,
             v \<noteq> ([q0, q1, q2, q3] = [True, True, False, False]
                   \<or> [q0, q1, q2, q3] = [False, False, True, True]),
             False, False, False, False], Amp 1 0 0)]"
  by (cases q0 rule: bool.exhaust; cases q1 rule: bool.exhaust; cases q2 rule: bool.exhaust;
      cases q3 rule: bool.exhaust; cases v rule: bool.exhaust; hypsubst_thin; code_simp)

text \<open>
  C3.  What \<open>oracle_for_2_adj_public\<close> does on every 3-bit basis input with val at
  zero: one ket comes back, the input itself with val at zero again, and its amplitude
  is \<open>-1\<close> for 110 alone.  The input 011 keeps amplitude \<open>+1\<close>: \<open>cirq.CZ(val, q0)\<close>
  flips the phase only where \<open>q0\<close> is 1 as well, so the second valid pattern is not
  marked.
\<close>

theorem oracle_for_2_adj_public_phase:
  "run_on_ket (oracle_for_2_adj_public [] (LineQubit_range 4)) [q0, q1, q2, False]
   = Some [([q0, q1, q2, False],
            if [q0, q1, q2] = [True, True, False] then Amp (- 1) 0 0 else Amp 1 0 0)]"
  by (cases q0 rule: bool.exhaust; cases q1 rule: bool.exhaust; cases q2 rule: bool.exhaust;
      hypsubst_thin; code_simp)

text \<open>
  C4.  The gate sequence of \<open>oracle_two_public_rooms\<close>, run on any basis input of the
  six qubits, returns a single ket with amplitude one in which the four data qubits
  (and the unused sixth) keep their values and val is flipped if and only if exactly two
  of the four data bits are 1.
\<close>

theorem oracle_two_public_rooms_marks:
  "run_on_ket (oracle_two_public_rooms [] (LineQubit_range 6)) [q0, q1, q2, q3, v, u]
   = Some [([q0, q1, q2, q3, v \<noteq> (count_list [q0, q1, q2, q3] True = 2), u], Amp 1 0 0)]"
  by (cases q0 rule: bool.exhaust; cases q1 rule: bool.exhaust; cases q2 rule: bool.exhaust;
      cases q3 rule: bool.exhaust; cases v rule: bool.exhaust; cases u rule: bool.exhaust;
      hypsubst_thin; code_simp)

section \<open>Amplification\<close>

lemma grover_one_iteration_value:
  "measured_probability (build_grover_circuit 1) 6 two_public_patterns
   = Some (Amp 33030144 3932160 26)"
  by code_simp

text \<open>
  C5.  \<open>build_grover_circuit(1)\<close> of grover.py is built without error, and in its final
  state the six patterns with exactly two bits set have combined probability (it is
  \<open>63/128 + 15/256 * sqrt 2\<close>) strictly above the uniform baseline \<open>6/16\<close>.
\<close>

theorem grover_one_iteration_amplifies:
  "\<exists>p. measured_probability (build_grover_circuit 1) 6 two_public_patterns = Some p
       \<and> 6 / 16 < amp_val p"
proof -
  have "amp_val (Amp 6 0 4) < amp_val (Amp 33030144 3932160 26)"
    by (rule amp_val_less) simp_all
  moreover have "amp_val (Amp 6 0 4) = 6 / 16"
    by (simp add: amp_val_def)
  ultimately show ?thesis
    using grover_one_iteration_value by simp
qed

section \<open>The fitness function\<close>


section \<open>The diffusion block\<close>

lemma diffusion_grover_on_uniform:
  "amp_of (run (diffusion_grover (LineQubit_range 6)) (simulate (on_each cirq_H [0, 1, 2, 3]) 6))
          (replicate 6 False) = Amp 0 0 13"
  by code_simp

lemma diffusion_v2_on_uniform:
  "amp_of (run (diffusion_v2 0 1 2 3) (simulate (on_each cirq_H [0, 1, 2, 3]) 9))
          (replicate 9 False) = Amp 0 0 13"
  by code_simp

lemma diffusion_spec_on_uniform:
  "amp_of (run (diffusion_spec [0, 1, 2, 3]) (simulate (on_each cirq_H [0, 1, 2, 3]) 6))
          (replicate 6 False) = Amp (- 1024) 0 12"
  by code_simp

lemma reflect_on_uniform:
  "amp_of (reflect_about_mean 4 (data_kets 4 [False, False])
             (simulate (on_each cirq_H [0, 1, 2, 3]) 6))
          (replicate 6 False) = Amp 64 0 8"
  by code_simp

lemma diffusion_third_step:
  "diffusion_grover (LineQubit_range 6) ! 8 = Op GH [0, 1, 2] 3
   \<and> diffusion_v2 0 1 2 3 ! 8 = Op GH [0, 1, 2] 3
   \<and> diffusion_spec [0, 1, 2, 3] ! 8 = Op GZ [0, 1, 2] 3"
  by code_simp

text \<open>
  C2.  The third of the five diffusion steps the scripts append is a Hadamard on the
  last data cell controlled by the other three, where the specification (and the
  scripts' own comments, "4-controlled Z") have a controlled phase flip.  The block is
  therefore not the reflection about the mean: applied to the uniform superposition,
  which the reflection leaves at amplitude \<open>1/4\<close> on every ket (\<open>-1/4\<close> for the
  five-step circuit of the specification, a global sign), the scripts' block gives
  amplitude \<open>0\<close> on the all-zero ket.
\<close>

theorem diffusion_block_is_not_reflection:
  "diffusion_grover (LineQubit_range 6) ! 8 = Op GH [0, 1, 2] 3
   \<and> diffusion_v2 0 1 2 3 ! 8 = Op GH [0, 1, 2] 3
   \<and> diffusion_spec [0, 1, 2, 3] ! 8 = Op GZ [0, 1, 2] 3
   \<and> amp_val (amp_of (run (diffusion_grover (LineQubit_range 6))
                          (simulate (on_each cirq_H [0, 1, 2, 3]) 6)) (replicate 6 False)) = 0
   \<and> amp_val (amp_of (run (diffusion_v2 0 1 2 3)
                          (simulate (on_each cirq_H [0, 1, 2, 3]) 9)) (replicate 9 False)) = 0
   \<and> amp_val (amp_of (run (diffusion_spec [0, 1, 2, 3])
                          (simulate (on_each cirq_H [0, 1, 2, 3]) 6)) (replicate 6 False)) = - 1 / 4
   \<and> amp_val (amp_of (reflect_about_mean 4 (data_kets 4 [False, False])
                          (simulate (on_each cirq_H [0, 1, 2, 3]) 6)) (replicate 6 False)) = 1 / 4"
  unfolding diffusion_grover_on_uniform diffusion_v2_on_uniform diffusion_spec_on_uniform
    reflect_on_uniform
  using diffusion_third_step by (simp add: amp_val_def)

section \<open>Image export without PIL\<close>




section \<open>The shape of the built circuits\<close>

lemma foldl_flip_val_if_pattern:
  "foldl (\<lambda>c pat. flip_val_if_pattern c qubits q0123 val pat) circuit pats
     = circuit @ concat (map (\<lambda>pat. x_on_zero_cells qubits pat
                                @ [controlled_by (cirq_X val) q0123]
                                @ x_on_zero_cells qubits pat) pats)"
  by (induction pats arbitrary: circuit) (simp_all add: flip_val_if_pattern_def)

lemma oracle_two_public_rooms_appends:
  "length qubits = 6 \<Longrightarrow>
   oracle_two_public_rooms circuit qubits
     = Inr (circuit @ concat (map (\<lambda>pat. x_on_zero_cells qubits pat
                @ [controlled_by (cirq_X (qubits ! 4))
                     [qubits ! 0, qubits ! 1, qubits ! 2, qubits ! 3]]
                @ x_on_zero_cells qubits pat) two_public_patterns))"
  by (simp add: oracle_two_public_rooms_def foldl_flip_val_if_pattern Let_def)

lemma grover_iteration_appends:
  "grover_iteration (LineQubit_range 6) circuit = Inr (circuit @ grover_iteration_ops)"
  by (simp add: grover_iteration_ops_def grover_iteration_def oracle_two_public_rooms_appends
      LineQubit_range_def)

lemma grover_loop_appends:
  "grover_loop n (LineQubit_range 6) circuit
     = Inr (circuit @ concat (replicate n grover_iteration_ops))"
  by (induction n arbitrary: circuit) (simp_all add: grover_iteration_appends)

lemma build_grover_circuit_shape:
  "build_grover_circuit num_iterations
     = Inr (on_each cirq_H [0, 1, 2, 3]
            @ concat (replicate (nat num_iterations) grover_iteration_ops)
            @ [cirq_measure [0, 1, 2, 3] ''result''])"
proof -
  have "take 4 (LineQubit_range 6) = [0, 1, 2, 3]" by code_simp
  then show ?thesis
    by (simp add: build_grover_circuit_def grover_loop_appends Let_def)
qed









section \<open>Construction errors\<close>




section \<open>The unused qubit of grover.py\<close>

lemma collect_kets: "fst ` set (collect \<psi>) = fst ` set \<psi>"
  by (force simp: collect_def)

lemma qubit_is_iff:
  "qubit_is q v \<psi> \<longleftrightarrow> (\<forall>b \<in> fst ` set \<psi>. q < length b \<and> b ! q = v)"
  by (auto simp: qubit_is_def list_all_iff)

lemma apply_op_frame:
  assumes "q \<notin> set (op_qubits g)" and "qubit_is q v \<psi>"
  shows "qubit_is q v (apply_op g \<psi>)"
proof (cases g)
  case (Measure qs key)
  with assms show ?thesis by simp
next
  case (Op k cs t)
  with assms(1) have tq: "t \<noteq> q" by auto
  show ?thesis
  proof (cases k)
    case GX
    with Op assms(2) tq show ?thesis
      by (auto simp: qubit_is_def list_all_iff split: if_splits)
  next
    case GZ
    with Op assms(2) show ?thesis
      by (auto simp: qubit_is_def list_all_iff)
  next
    case GH
    have "qubit_is q v (concat (map (\<lambda>(b, a).
        if controls_on cs b
        then [(b[t := False], amp_mul rsqrt2 a),
              (b[t := True], if b ! t then amp_neg (amp_mul rsqrt2 a) else amp_mul rsqrt2 a)]
        else [(b, a)]) \<psi>))"
      using assms(2) tq by (auto simp: qubit_is_def list_all_iff split: if_splits)
    then show ?thesis
      using Op GH by (simp add: qubit_is_iff collect_kets)
  qed
qed

lemma run_frame:
  "avoids q c \<Longrightarrow> qubit_is q v \<psi> \<Longrightarrow> qubit_is q v (run c \<psi>)"
proof (induction c arbitrary: \<psi>)
  case Nil
  then show ?case by (simp add: run_def)
next
  case (Cons g c)
  from Cons.prems have "q \<notin> set (op_qubits g)" and "avoids q c"
    by (simp_all add: avoids_def)
  with Cons.prems(2) have "qubit_is q v (run c (apply_op g \<psi>))"
    by (intro Cons.IH apply_op_frame)
  then show ?case by (simp add: run_def)
qed

lemma avoids_take: "avoids q c \<Longrightarrow> avoids q (take j c)"
  by (auto simp: avoids_def list_all_iff dest: in_set_takeD)

lemma avoids_append: "avoids q (c @ d) \<longleftrightarrow> avoids q c \<and> avoids q d"
  by (simp add: avoids_def)

lemma avoids_repeat: "avoids q d \<Longrightarrow> avoids q (concat (replicate n d))"
  by (induction n) (simp_all add: avoids_def)

lemma grover_iteration_ops_avoid_unused: "avoids 5 grover_iteration_ops"
  by code_simp

lemma grover_frame_avoid_unused:
  "avoids 5 (on_each cirq_H [0, 1, 2, 3]) \<and> avoids 5 [cirq_measure [0, 1, 2, 3] ''result'']"
  by code_simp

text \<open>
  C10.  For every iteration count \<open>build_grover_circuit\<close> of grover.py returns a circuit
  in which no operation, the final measurement included, has qubit 5 as control, target
  or measured qubit; run from any basis state, after every prefix of the circuit qubit 5
  has in every term of the state the value \<open>u\<close> it started with (zero, from the all-zero
  start).
\<close>

theorem unused_qubit_untouched:
  "\<exists>c. build_grover_circuit num_iterations = Inr c
       \<and> avoids 5 c
       \<and> (\<forall>j. qubit_is 5 u (run (take j c) [([q0, q1, q2, q3, v, u], a)]))"
proof -
  let ?c = "on_each cirq_H [0, 1, 2, 3]
            @ concat (replicate (nat num_iterations) grover_iteration_ops)
            @ [cirq_measure [0, 1, 2, 3] ''result'']"
  have av: "avoids 5 ?c"
    using grover_frame_avoid_unused grover_iteration_ops_avoid_unused
    by (simp add: avoids_append avoids_repeat)
  have start: "qubit_is 5 u [([q0, q1, q2, q3, v, u], a)]"
    by (simp add: qubit_is_def)
  have "qubit_is 5 u (run (take j ?c) [([q0, q1, q2, q3, v, u], a)])" for j
    using avoids_take [OF av] start by (rule run_frame)
  with av show ?thesis
    using build_grover_circuit_shape by blast
qed

theorem unused_qubit_untouched_witness:
  "\<exists>c. build_grover_circuit 1 = Inr c
       \<and> avoids 5 c
       \<and> qubit_is 5 False (simulate c 6)"
proof -
  obtain c where c: "build_grover_circuit 1 = Inr c" "avoids 5 c"
    and r: "\<forall>j. qubit_is 5 False (run (take j c) [([False, False, False, False, False, False], Amp 1 0 0)])"
    using unused_qubit_untouched [of 1 False False False False False False "Amp 1 0 0"] by blast
  have z: "replicate 6 False = [False, False, False, False, False, False]"
    by code_simp
  from r have "qubit_is 5 False (run (take (length c) c) [(replicate 6 False, Amp 1 0 0)])"
    unfolding z by blast
  then show ?thesis using c by (auto simp: simulate_def)
qed

section \<open>Over-iteration\<close>

lemma v2_probability_1:
  "measured_probability (build_grover_circuit_v2 1) 9 valid_states_v2
   = Some (Amp 19398656 5505024 26)"
  by code_simp

lemma v2_probability_2:
  "measured_probability (build_grover_circuit_v2 2) 9 valid_states_v2
   = Some (Amp 5806795784192 1803886264320 44)"
  by code_simp

lemma v2_probability_3:
  "measured_probability (build_grover_circuit_v2 3) 9 valid_states_v2
   = Some (Amp 812899732740374528 118219490218475520 62)"
  by code_simp

text \<open>
  C6.  For \<open>build_grover_circuit(k)\<close> of quantum_architect_v2.py with \<open>k = 1, 2, 3\<close>
  the probability of the valid set \<open>{1100, 0011}\<close> in the final state is
  \<open>37/128 + 21/256 * sqrt 2\<close>, \<open>169/512 + 105/1024 * sqrt 2\<close> and
  \<open>361/2048 + 105/4096 * sqrt 2\<close>: it rises from one iteration to two and falls from
  two to three.
\<close>

theorem over_iteration_rises_then_falls:
  "\<exists>p1 p2 p3.
     measured_probability (build_grover_circuit_v2 1) 9 valid_states_v2 = Some p1
     \<and> measured_probability (build_grover_circuit_v2 2) 9 valid_states_v2 = Some p2
     \<and> measured_probability (build_grover_circuit_v2 3) 9 valid_states_v2 = Some p3
     \<and> amp_val p1 < amp_val p2 \<and> amp_val p3 < amp_val p2"
proof -
  have "amp_val (Amp 19398656 5505024 26) < amp_val (Amp 5806795784192 1803886264320 44)"
    by (rule amp_val_less) simp_all
  moreover have "amp_val (Amp 812899732740374528 118219490218475520 62)
      < amp_val (Amp 5806795784192 1803886264320 44)"
    by (rule amp_val_less) simp_all
  ultimately show ?thesis
    using v2_probability_1 v2_probability_2 v2_probability_3 by simp
qed

end
